theory Spec2Isabelle
  imports Main "HOL-Library.AList" "HOL-Library.Word"
begin

section \<open>Errors of the dispatch engine (pkg/controller/sharedhandler.go)\<close>

text \<open>
  A Go \<^verbatim>\<open>error\<close> value. \<open>ErrIgnore\<close> is the package variable of that name, a
  pointer of its own: no other error is equal to it. \<open>ErrNew m\<close> is an error with
  text \<open>m\<close> and neither an \<^verbatim>\<open>Unwrap\<close> nor an \<^verbatim>\<open>Is\<close> method (what \<^verbatim>\<open>errors.New\<close>
  builds); \<open>ErrWrap m e\<close> is an error with text \<open>m\<close> whose \<^verbatim>\<open>Unwrap\<close> returns \<open>e\<close> and
  that has no \<^verbatim>\<open>Is\<close> method (what \<^verbatim>\<open>fmt.Errorf\<close> with \<^verbatim>\<open>%w\<close> builds).
  \<open>ErrCustom m accepts unwrap\<close> and \<open>ErrJoin m accepts unwraps\<close> are errors of any other
  type, with text \<open>m\<close>: \<open>accepts\<close> lists the targets for which the error's own
  \<^verbatim>\<open>Is(error) bool\<close> method answers true (none when it has no such method);
  \<open>unwrap\<close> is what its \<^verbatim>\<open>Unwrap() error\<close> gives (\<open>None\<close> for nil or no such method),
  and \<open>unwraps\<close> what its \<^verbatim>\<open>Unwrap() []error\<close> gives, as for an error built by
  \<^verbatim>\<open>errors.Join\<close>.
  \<open>HandlerError n e\<close> is \<^verbatim>\<open>&handlerError{HandlerName: n, Err: e}\<close> and \<open>ErrorList es\<close>
  is an \<^verbatim>\<open>errorList\<close> held in an \<^verbatim>\<open>error\<close> interface; neither type has an
  \<^verbatim>\<open>Unwrap\<close> or an \<^verbatim>\<open>Is\<close> method. The nil error is \<open>None\<close> of \<open>error option\<close>.
\<close>

datatype error =
    ErrIgnore
  | ErrNew string
  | ErrWrap string error
  | ErrCustom string "error list" "error option"
  | ErrJoin string "error list" "error list"
  | HandlerError string error
  | ErrorList "error list"

type_synonym errorList = "error list"

text \<open>
  The loop of \<^verbatim>\<open>errorList.Error\<close> over the texts of the entries: a separator is
  written only when the buffer already holds something.
\<close>

fun WriteString_loop :: "string list \<Rightarrow> string \<Rightarrow> string" where
  "WriteString_loop [] buf = buf"
| "WriteString_loop (t # ts) buf =
     WriteString_loop ts ((if length buf > 0 then buf @ '', '' else buf) @ t)"

text \<open>
  The \<^verbatim>\<open>Error()\<close> method. \<^verbatim>\<open>handlerError.Error\<close> is
  \<^verbatim>\<open>fmt.Sprintf("handler %s: %v", h.HandlerName, h.Err)\<close>, and \<^verbatim>\<open>%v\<close> of an error
  prints its \<^verbatim>\<open>Error()\<close>.
\<close>

fun Error :: "error \<Rightarrow> string" where
  "Error ErrIgnore = ''ignore handler error''"
| "Error (ErrNew m) = m"
| "Error (ErrWrap m e) = m"
| "Error (ErrCustom m accepts unwrap) = m"
| "Error (ErrJoin m accepts unwraps) = m"
| "Error (HandlerError n e) = ''handler '' @ n @ '': '' @ Error e"
| "Error (ErrorList es) = WriteString_loop (map Error es) []"

definition ToErr :: "errorList \<Rightarrow> error option" where
  "ToErr e =
     (case e of
        [] \<Rightarrow> None
      | [x] \<Rightarrow> Some x
      | _ \<Rightarrow> Some (ErrorList e))"

text \<open>\<^verbatim>\<open>errorList.Cause\<close> and \<^verbatim>\<open>handlerError.Cause\<close>.\<close>

definition errorList_Cause :: "errorList \<Rightarrow> error option" where
  "errorList_Cause e = (if length e > 0 then Some (e ! 0) else None)"

definition handlerError_Cause :: "string \<Rightarrow> error \<Rightarrow> error" where
  "handlerError_Cause HandlerName Err = Err"

text \<open>
  \<^verbatim>\<open>errors.Is(err, target)\<close>, as package errors defines it: \<open>err\<close> is \<open>target\<close>, or
  the \<^verbatim>\<open>Is\<close> method of \<open>err\<close> answers true for \<open>target\<close>, or the same holds of an
  error that \<^verbatim>\<open>Unwrap\<close> gives for \<open>err\<close>. (Before Go 1.20 the errors given by
  \<^verbatim>\<open>Unwrap() []error\<close> were not followed.) Equality of model values stands for Go's
  \<^verbatim>\<open>==\<close> on errors, which is exact for the one target the code uses, \<open>ErrIgnore\<close>.
\<close>

fun errors_Is :: "error \<Rightarrow> error \<Rightarrow> bool" where
  "errors_Is (ErrWrap m e) target = (ErrWrap m e = target \<or> errors_Is e target)"
| "errors_Is (ErrCustom m accepts unwrap) target =
     (ErrCustom m accepts unwrap = target \<or> target \<in> set accepts
      \<or> (case unwrap of None \<Rightarrow> False | Some e \<Rightarrow> errors_Is e target))"
| "errors_Is (ErrJoin m accepts unwraps) target =
     (ErrJoin m accepts unwraps = target \<or> target \<in> set accepts
      \<or> (\<exists>u \<in> set unwraps. errors_Is u target))"
| "errors_Is err target = (err = target)"

text \<open>
  The unwrap chain of an error: the error, what \<^verbatim>\<open>Unwrap() error\<close> gives for it, and so
  on (the words of the claims, to compare \<open>errors_Is\<close> with).
\<close>

fun unwrap_chain :: "error \<Rightarrow> error list" where
  "unwrap_chain (ErrWrap m e) = ErrWrap m e # unwrap_chain e"
| "unwrap_chain (ErrCustom m accepts (Some e)) = ErrCustom m accepts (Some e) # unwrap_chain e"
| "unwrap_chain err = [err]"

text \<open>
  Every error reached from an error by \<^verbatim>\<open>Unwrap\<close> of either form, the error itself
  included.
\<close>

fun unwrapped :: "error \<Rightarrow> error list" where
  "unwrapped (ErrWrap m e) = ErrWrap m e # unwrapped e"
| "unwrapped (ErrCustom m accepts unwrap) =
     ErrCustom m accepts unwrap # (case unwrap of None \<Rightarrow> [] | Some e \<Rightarrow> unwrapped e)"
| "unwrapped (ErrJoin m accepts unwraps) =
     ErrJoin m accepts unwraps # concat (map unwrapped unwraps)"
| "unwrapped err = [err]"

text \<open>An error whose own \<^verbatim>\<open>Is\<close> method answers true for the target.\<close>

fun Is_method_accepts :: "error \<Rightarrow> error \<Rightarrow> bool" where
  "Is_method_accepts (ErrCustom m accepts unwrap) target = (target \<in> set accepts)"
| "Is_method_accepts (ErrJoin m accepts unwraps) target = (target \<in> set accepts)"
| "Is_method_accepts err target = False"

text \<open>
  What the specification calls joining: the texts in order, the separator between each
  two of them (the words of the specification, to compare \<^verbatim>\<open>errorList.Error\<close> with).
\<close>

fun joined_by :: "string \<Rightarrow> string list \<Rightarrow> string" where
  "joined_by sep [] = []"
| "joined_by sep [t] = t"
| "joined_by sep (t # u # ts) = t @ sep @ joined_by sep (u # ts)"

text \<open>An accumulated failure, rendered as the specification writes it.\<close>

definition rendered :: "string \<times> error \<Rightarrow> string" where
  "rendered f = ''handler '' @ fst f @ '': '' @ Error (snd f)"

definition entry :: "string \<times> error \<Rightarrow> error" where
  "entry f = HandlerError (fst f) (snd f)"

section \<open>Objects and the object carrier (package tracing)\<close>

text \<open>
  A \<^verbatim>\<open>runtime.Object\<close> is an interface value that points to an object on the heap.
  Handlers and the carrier mutate objects in place, so objects live in a store, a list
  of cells indexed by address, and an interface value is nil or a reference into it.
  A cell is an object for which \<^verbatim>\<open>meta.Accessor\<close> fails (\<open>NoMeta\<close>), or one with
  object metadata: the uid and the annotation map, \<open>None\<close> for the nil map. The map is
  an association list with distinct keys; a key is assigned with \<^const>\<open>AList.update\<close>.
  \<^verbatim>\<open>meta.Accessor\<close> itself is code of k8s.io/apimachinery: it fails on the nil
  interface and on an object that has no metadata, and otherwise gives access to the
  object's own metadata. An interface that holds a nil pointer is modelled only where
  the code tests for one, in what a handler returns.
\<close>

record ObjectMeta =
  UID :: string
  Annotations :: "(string \<times> string) list option"

datatype object = NoMeta | Meta ObjectMeta

datatype runtime_Object = NilObject | Ref nat

type_synonym store = "object list"

text \<open>
  Go has no dangling reference; the model reads an address outside the store as an
  object without metadata.
\<close>

definition object_at :: "store \<Rightarrow> nat \<Rightarrow> object" where
  "object_at s a = (if a < length s then s ! a else NoMeta)"

definition meta_Accessor :: "store \<Rightarrow> runtime_Object \<Rightarrow> ObjectMeta option" where
  "meta_Accessor s obj =
     (case obj of
        NilObject \<Rightarrow> None
      | Ref a \<Rightarrow> (case object_at s a of NoMeta \<Rightarrow> None | Meta m \<Rightarrow> Some m))"

text \<open>
  \<^verbatim>\<open>accessor.SetAnnotations(ann)\<close> on the object behind a reference: the cell at that
  address is overwritten, every other cell is left as it is.
\<close>

definition SetAnnotations :: "runtime_Object \<Rightarrow> (string \<times> string) list option \<Rightarrow> store \<Rightarrow> store" where
  "SetAnnotations obj ann s =
     (case obj of
        NilObject \<Rightarrow> s
      | Ref a \<Rightarrow>
          (case object_at s a of
             NoMeta \<Rightarrow> s
           | Meta m \<Rightarrow> s[a := Meta (m\<lparr>Annotations := ann\<rparr>)]))"

text \<open>
  \<^verbatim>\<open>obj.DeepCopyObject()\<close>: a method call on the nil interface is a nil dereference;
  on an object it allocates a copy at a fresh address.
\<close>

datatype panic = NilDereference | IndexOutOfRange

datatype 'a outcome = Panic panic | Return 'a

definition DeepCopyObject :: "runtime_Object \<Rightarrow> store \<Rightarrow> runtime_Object outcome \<times> store" where
  "DeepCopyObject obj s =
     (case obj of
        NilObject \<Rightarrow> (Panic NilDereference, s)
      | Ref a \<Rightarrow> (Return (Ref (length s)), s @ [object_at s a]))"

text \<open>
  The carrier \<^verbatim>\<open>ObjectCarrier{Object: obj}\<close> is its object; its mutex is a fresh one
  per carrier and has no effect on a single thread. The test \<^verbatim>\<open>accessor == nil\<close>
  after a successful \<^verbatim>\<open>meta.Accessor\<close> never holds here.
\<close>

definition isNil :: "runtime_Object \<Rightarrow> bool" where
  "isNil obj = (obj = NilObject)"

definition ObjectCarrier_Get :: "store \<Rightarrow> runtime_Object \<Rightarrow> string \<Rightarrow> string" where
  "ObjectCarrier_Get s obj key =
     (if isNil obj then ''''
      else case meta_Accessor s obj of
             None \<Rightarrow> ''''
           | Some accessor \<Rightarrow>
               (case Annotations accessor of
                  None \<Rightarrow> ''''
                | Some existingAnn \<Rightarrow>
                    (case map_of existingAnn key of None \<Rightarrow> '''' | Some v \<Rightarrow> v)))"

definition ObjectCarrier_Set :: "runtime_Object \<Rightarrow> string \<Rightarrow> string \<Rightarrow> store \<Rightarrow> store" where
  "ObjectCarrier_Set obj key val s =
     (if isNil obj then s
      else case meta_Accessor s obj of
             None \<Rightarrow> s
           | Some accessor \<Rightarrow>
               (let existingAnn = (case Annotations accessor of None \<Rightarrow> [] | Some ann \<Rightarrow> ann)
                in SetAnnotations obj (Some (AList.update key val existingAnn)) s))"

text \<open>
  \<^verbatim>\<open>keys[i] = k\<close>: an assignment to a slice element panics when the index is not
  below the length of the slice.
\<close>

definition slice_assign :: "'a list \<Rightarrow> nat \<Rightarrow> 'a \<Rightarrow> 'a list outcome" where
  "slice_assign xs i v = (if i < length xs then Return (xs[i := v]) else Panic IndexOutOfRange)"

text \<open>
  The loop of \<^verbatim>\<open>Keys\<close>: \<^verbatim>\<open>for _, k := range existingAnn { i++; keys[i] = k }\<close>. The
  range gives the key and the value of each pair, and the loop binds the value to
  \<open>k\<close>. Go ranges over a map in an unspecified order; the model takes the order of the
  association list.
\<close>

fun Keys_loop :: "(string \<times> string) list \<Rightarrow> nat \<Rightarrow> string list \<Rightarrow> string list outcome" where
  "Keys_loop [] i keys = Return keys"
| "Keys_loop ((uu, k) # rest) i keys =
     (case slice_assign keys (i + 1) k of
        Panic p \<Rightarrow> Panic p
      | Return keys' \<Rightarrow> Keys_loop rest (i + 1) keys')"

text \<open>
  \<^verbatim>\<open>keys := make([]string, 0, len(existingAnn))\<close> is a slice of length 0; ranging over
  the nil map runs the loop body no times.
\<close>

definition ObjectCarrier_Keys :: "store \<Rightarrow> runtime_Object \<Rightarrow> string list outcome" where
  "ObjectCarrier_Keys s obj =
     (if isNil obj then Return []
      else case meta_Accessor s obj of
             None \<Rightarrow> Return []
           | Some accessor \<Rightarrow>
               (let existingAnn = (case Annotations accessor of None \<Rightarrow> [] | Some ann \<Rightarrow> ann)
                in Keys_loop existingAnn 0 []))"

text \<open>
  The propagator \<^verbatim>\<open>otel.GetTextMapPropagator()\<close> is configured outside this
  repository. It reaches an object only through the carrier it is given, so it is
  modelled by the calls it makes on that carrier: \<open>extract_calls\<close> when it extracts a
  context, \<open>inject_calls\<close> when it injects the context of the span of the given name.
  The values it reads make up the context it returns.
\<close>

datatype carrier_call = CarrierGet string | CarrierSet string string | CarrierKeys

record TextMapPropagator =
  extract_calls :: "carrier_call list"
  inject_calls :: "string \<Rightarrow> carrier_call list"

fun carrier_calls :: "carrier_call list \<Rightarrow> runtime_Object \<Rightarrow> string list \<Rightarrow> store \<Rightarrow> string list outcome \<times> store" where
  "carrier_calls [] c got s = (Return got, s)"
| "carrier_calls (CarrierGet key # calls) c got s =
     carrier_calls calls c (got @ [ObjectCarrier_Get s c key]) s"
| "carrier_calls (CarrierSet key val # calls) c got s =
     carrier_calls calls c got (ObjectCarrier_Set c key val s)"
| "carrier_calls (CarrierKeys # calls) c got s =
     (case ObjectCarrier_Keys s c of
        Panic p \<Rightarrow> (Panic p, s)
      | Return keys \<Rightarrow> carrier_calls calls c (got @ keys) s)"

text \<open>
  \<^verbatim>\<open>tracing.Extract\<close> hands the propagator a carrier over a deep copy of the object;
  \<^verbatim>\<open>tracing.Inject\<close> hands it a carrier over the object itself.
\<close>

definition Extract :: "TextMapPropagator \<Rightarrow> runtime_Object \<Rightarrow> store \<Rightarrow> string list outcome \<times> store" where
  "Extract p obj s =
     (case DeepCopyObject obj s of
        (Panic pn, s') \<Rightarrow> (Panic pn, s')
      | (Return copy, s') \<Rightarrow> carrier_calls (extract_calls p) copy [] s')"

definition Inject :: "TextMapPropagator \<Rightarrow> string \<Rightarrow> runtime_Object \<Rightarrow> store \<Rightarrow> string list outcome \<times> store" where
  "Inject p span_name obj s = carrier_calls (inject_calls p span_name) obj [] s"

section \<open>The dispatch engine: SharedHandler.OnChange\<close>

text \<open>
  What a handler returns as its object: the nil interface, an interface that holds a
  nil pointer (what \<^verbatim>\<open>reflect.ValueOf(newObj).IsNil()\<close> detects), or an object. A
  handler is any function of the key, the object it is given and the store; it may
  change the store.
\<close>

datatype newObj = ReturnedNil | ReturnedNilPointer | ReturnedObject nat

type_synonym SharedControllerHandler =
  "string \<Rightarrow> runtime_Object \<Rightarrow> store \<Rightarrow> (newObj \<times> error option) \<times> store"

record handlerEntry =
  id' :: "64 word"
  name :: string
  handler :: SharedControllerHandler

record SharedHandler =
  idCounter :: "64 word"
  controllerGVR :: string
  handlers :: "handlerEntry list"

text \<open>
  Everything the dispatch does to its collaborators is kept in one ordered trace: the
  spans it starts, marks and ends, the handler calls with the object passed, and the two
  metrics of package metrics. The duration reported by \<^verbatim>\<open>ReportReconcileTime\<close> is
  wall-clock time and is left out of the event.
\<close>

datatype span = OnChange_span | handler_span string

datatype code = codes_Error | codes_Ok

datatype event =
    SpanStart span
  | SpanSetStatus span code string
  | SpanEnd span
  | HandlerOnChange "64 word" string string runtime_Object
  | IncTotalHandlerExecutions string string bool
  | ReportReconcileTime string string bool

record world =
  objects :: store
  events :: "event list"

definition emit :: "event \<Rightarrow> world \<Rightarrow> world" where
  "emit e w = w\<lparr>events := events w @ [e]\<rparr>"

text \<open>
  Lines 86 to 93: the error of a handler is appended to \<open>errs\<close>, wrapped with the
  handler's name, unless it is nil or \<^verbatim>\<open>errors.Is(err, ErrIgnore)\<close>.
\<close>

definition record_error :: "string \<Rightarrow> error option \<Rightarrow> errorList \<Rightarrow> world \<Rightarrow> (errorList \<times> bool) \<times> world" where
  "record_error handler_name err errs w =
     (case err of
        None \<Rightarrow> ((errs, False), w)
      | Some e \<Rightarrow>
          if \<not> errors_Is e ErrIgnore
          then ((errs @ [HandlerError handler_name e], True),
                emit (SpanSetStatus (handler_span handler_name) codes_Error (Error e)) w)
          else ((errs, False), w))"

text \<open>Lines 99 to 108: which object the next handler is given.\<close>

definition replace_obj :: "store \<Rightarrow> runtime_Object \<Rightarrow> newObj \<Rightarrow> runtime_Object" where
  "replace_obj s obj new =
     (case new of
        ReturnedNil \<Rightarrow> obj
      | ReturnedNilPointer \<Rightarrow> obj
      | ReturnedObject a \<Rightarrow>
          (case meta_Accessor s (Ref a) of
             Some m \<Rightarrow> if UID m \<noteq> '''' then Ref a else obj
           | None \<Rightarrow> Ref a))"

text \<open>The body of the loop over the handlers, lines 81 to 108.\<close>

definition OnChange_body ::
  "TextMapPropagator \<Rightarrow> string \<Rightarrow> string \<Rightarrow> handlerEntry \<Rightarrow> runtime_Object \<Rightarrow> errorList \<Rightarrow> world
     \<Rightarrow> (runtime_Object \<times> errorList) outcome \<times> world" where
  "OnChange_body p gvr key h obj errs w =
     (let w1 = emit (SpanStart (handler_span (name h))) w
      in case Inject p (name h) obj (objects w1) of
           (Panic pn, s1) \<Rightarrow> (Panic pn, w1\<lparr>objects := s1\<rparr>)
         | (Return got, s1) \<Rightarrow>
             (case handler h key obj s1 of
                ((new, err), s2) \<Rightarrow>
                  (let w2 = emit (HandlerOnChange (id' h) (name h) key obj) (w1\<lparr>objects := s2\<rparr>)
                   in case record_error (name h) err errs w2 of
                        ((errs', hasError), w3) \<Rightarrow>
                          (let w4 = emit (SpanEnd (handler_span (name h))) w3;
                               w5 = emit (IncTotalHandlerExecutions gvr (name h) hasError) w4;
                               w6 = emit (ReportReconcileTime gvr (name h) hasError) w5
                           in (Return (replace_obj (objects w6) obj new, errs'), w6)))))"

fun OnChange_loop ::
  "TextMapPropagator \<Rightarrow> string \<Rightarrow> string \<Rightarrow> handlerEntry list \<Rightarrow> runtime_Object \<Rightarrow> errorList \<Rightarrow> world
     \<Rightarrow> (runtime_Object \<times> errorList) outcome \<times> world" where
  "OnChange_loop p gvr key [] obj errs w = (Return (obj, errs), w)"
| "OnChange_loop p gvr key (h # hs) obj errs w =
     (case OnChange_body p gvr key h obj errs w of
        (Panic pn, w') \<Rightarrow> (Panic pn, w')
      | (Return (obj', errs'), w') \<Rightarrow> OnChange_loop p gvr key hs obj' errs' w')"

text \<open>
  \<^verbatim>\<open>OnChange\<close>, lines 65 to 118. The snapshot is a copy of \<open>handlers h\<close> (on one
  thread the length read before the lock is the length copied under it).
  \<^verbatim>\<open>setupTracingCtx\<close> is \<^verbatim>\<open>tracing.Extract\<close> on the object; \<^verbatim>\<open>setupSpan\<close> starts the
  span of the dispatch in both of its branches, with or without a link. The deferred
  \<^verbatim>\<open>span.End()\<close> also runs when the loop panics.
\<close>

definition OnChange ::
  "TextMapPropagator \<Rightarrow> SharedHandler \<Rightarrow> string \<Rightarrow> runtime_Object \<Rightarrow> world \<Rightarrow> error option outcome \<times> world" where
  "OnChange p h key obj w =
     (let snapshot = handlers h
      in case Extract p obj (objects w) of
           (Panic pn, s1) \<Rightarrow> (Panic pn, w\<lparr>objects := s1\<rparr>)
         | (Return ctx, s1) \<Rightarrow>
             (let w1 = emit (SpanStart OnChange_span) (w\<lparr>objects := s1\<rparr>)
              in case OnChange_loop p (controllerGVR h) key snapshot obj [] w1 of
                   (Panic pn, w2) \<Rightarrow> (Panic pn, emit (SpanEnd OnChange_span) w2)
                 | (Return (obj', errs), w2) \<Rightarrow>
                     (case ToErr errs of
                        Some err \<Rightarrow>
                          (Return (Some err),
                           emit (SpanEnd OnChange_span)
                             (emit (SpanSetStatus OnChange_span codes_Error (Error err)) w2))
                      | None \<Rightarrow>
                          (Return None,
                           emit (SpanEnd OnChange_span)
                             (emit (SpanSetStatus OnChange_span codes_Ok '''') w2)))))"

text \<open>
  Readings of a trace: the handler calls, the objects passed to them, each handler's
  name with the object it was passed, the handler spans started, the metrics.
\<close>

fun handler_calls :: "event list \<Rightarrow> (64 word \<times> string) list" where
  "handler_calls [] = []"
| "handler_calls (HandlerOnChange i n k obj # es) = (i, n) # handler_calls es"
| "handler_calls (e # es) = handler_calls es"

fun objects_passed :: "event list \<Rightarrow> runtime_Object list" where
  "objects_passed [] = []"
| "objects_passed (HandlerOnChange i n k obj # es) = obj # objects_passed es"
| "objects_passed (e # es) = objects_passed es"

fun handler_spans_started :: "event list \<Rightarrow> string list" where
  "handler_spans_started [] = []"
| "handler_spans_started (SpanStart (handler_span n) # es) = n # handler_spans_started es"
| "handler_spans_started (e # es) = handler_spans_started es"


fun metrics :: "event list \<Rightarrow> event list" where
  "metrics [] = []"
| "metrics (IncTotalHandlerExecutions g n f # es) = IncTotalHandlerExecutions g n f # metrics es"
| "metrics (ReportReconcileTime g n f # es) = ReportReconcileTime g n f # metrics es"
| "metrics (e # es) = metrics es"

section \<open>A small system to run the definitions on\<close>

text \<open>
  A propagator that reads and writes one key, as the W3C trace context propagator does;
  a store with one object; handlers that return each kind of result: a replacement
  allocated by the handler, with and without an error, an error alone, the ignore
  sentinel, and an error that wraps the sentinel; and a dispatcher with two handlers
  registered.
\<close>

definition traceparent_propagator :: TextMapPropagator where
  "traceparent_propagator =
     \<lparr>extract_calls = [CarrierGet ''traceparent''],
      inject_calls = (\<lambda>span_name. [CarrierSet ''traceparent'' span_name])\<rparr>"

definition pod :: object where
  "pod = Meta \<lparr>UID = ''uid-1'', Annotations = None\<rparr>"

definition injected_pod :: object where
  "injected_pod = Meta \<lparr>UID = ''uid-1'', Annotations = Some [(''traceparent'', ''h1'')]\<rparr>"

definition new_pod :: object where
  "new_pod = Meta \<lparr>UID = ''uid-2'', Annotations = None\<rparr>"

definition injected_new_pod :: object where
  "injected_new_pod = Meta \<lparr>UID = ''uid-2'', Annotations = Some [(''traceparent'', ''h2'')]\<rparr>"

definition one_pod :: world where
  "one_pod = \<lparr>objects = [pod], events = []\<rparr>"

definition replacing :: SharedControllerHandler where
  "replacing key obj s = ((ReturnedObject (length s), None), s @ [new_pod])"

definition failing_replacing :: SharedControllerHandler where
  "failing_replacing key obj s = ((ReturnedObject (length s), Some (ErrNew ''boom'')), s @ [new_pod])"

definition ignoring :: SharedControllerHandler where
  "ignoring key obj s = ((ReturnedNil, Some ErrIgnore), s)"

definition wrapping_ignore :: SharedControllerHandler where
  "wrapping_ignore key obj s = ((ReturnedNil, Some (ErrWrap ''skipped: ignore handler error'' ErrIgnore)), s)"

definition accepting_ignore :: SharedControllerHandler where
  "accepting_ignore key obj s = ((ReturnedNil, Some (ErrCustom ''not found'' [ErrIgnore] None)), s)"

definition h1 :: "SharedControllerHandler \<Rightarrow> handlerEntry" where
  "h1 f = \<lparr>id' = 1, name = ''h1'', handler = f\<rparr>"

definition failing :: SharedControllerHandler where
  "failing key obj s = ((ReturnedNil, Some (ErrNew ''boom'')), s)"

definition h2 :: "SharedControllerHandler \<Rightarrow> handlerEntry" where
  "h2 f = \<lparr>id' = 2, name = ''h2'', handler = f\<rparr>"

definition two_handlers :: "SharedControllerHandler \<Rightarrow> SharedControllerHandler \<Rightarrow> SharedHandler" where
  "two_handlers f g = \<lparr>idCounter = 2, controllerGVR = ''gvr'', handlers = [h1 f, h2 g]\<rparr>"

section \<open>The error fold\<close>

lemma Error_entry: "Error (entry f) = rendered f"
  by (simp add: entry_def rendered_def)

lemma rendered_nonempty: "rendered f \<noteq> []"
  by (simp add: rendered_def)

lemma WriteString_loop_nonempty:
  "buf \<noteq> [] \<Longrightarrow> WriteString_loop ts buf = buf @ concat (map (\<lambda>t. '', '' @ t) ts)"
  by (induction ts arbitrary: buf) simp_all

lemma joined_by_Cons:
  "joined_by sep (t # ts) = t @ concat (map (\<lambda>u. sep @ u) ts)"
  by (induction ts arbitrary: t) simp_all

lemma WriteString_loop_joined:
  "\<forall>t \<in> set ts. t \<noteq> [] \<Longrightarrow> WriteString_loop ts [] = joined_by '', '' ts"
proof (cases ts)
  case Nil
  then show ?thesis by simp
next
  case (Cons t us)
  assume "\<forall>t \<in> set ts. t \<noteq> []"
  with Cons have "t \<noteq> []" by simp
  then show ?thesis
    using Cons by (simp add: WriteString_loop_nonempty joined_by_Cons)
qed

lemma Error_ErrorList_entries:
  "Error (ErrorList (map entry fs)) = joined_by '', '' (map rendered fs)"
proof -
  have nonempty: "\<forall>t \<in> set (map rendered fs). t \<noteq> []"
    by (simp add: rendered_nonempty)
  have texts: "map Error (map entry fs) = map rendered fs"
    by (simp add: Error_entry)
  have "Error (ErrorList (map entry fs)) = WriteString_loop (map Error (map entry fs)) []"
    by (simp only: Error.simps)
  also have "\<dots> = WriteString_loop (map rendered fs) []"
    by (simp only: texts)
  also have "\<dots> = joined_by '', '' (map rendered fs)"
    using nonempty by (rule WriteString_loop_joined)
  finally show ?thesis .
qed

text \<open>
  C2. The fold of the accumulated failures \<open>fs\<close> (pairs of a handler name and its
  error, in accumulation order): no failure gives nil; one failure gives that wrapped
  error, whose text is "handler <name>: <message>"; two or more give the composite error
  that holds every entry, whose text is the rendered entries joined by ", " in order and
  whose \<^verbatim>\<open>Cause\<close> is the first entry.
\<close>

theorem ToErr_fold:
  "ToErr (map entry []) = None
   \<and> ToErr (map entry [f]) = Some (HandlerError (fst f) (snd f))
   \<and> Error (HandlerError (fst f) (snd f)) = ''handler '' @ fst f @ '': '' @ Error (snd f)
   \<and> ToErr (map entry (f # g # fs)) = Some (ErrorList (map entry (f # g # fs)))
   \<and> Error (ErrorList (map entry (f # g # fs))) = joined_by '', '' (map rendered (f # g # fs))
   \<and> errorList_Cause (map entry (f # g # fs)) = Some (HandlerError (fst f) (snd f))"
proof -
  have none: "ToErr (map entry []) = None"
    by (simp add: ToErr_def)
  have one: "ToErr (map entry [f]) = Some (HandlerError (fst f) (snd f))"
    by (simp add: ToErr_def entry_def)
  have one_text:
    "Error (HandlerError (fst f) (snd f)) = ''handler '' @ fst f @ '': '' @ Error (snd f)"
    by simp
  have many: "ToErr (map entry (f # g # fs)) = Some (ErrorList (map entry (f # g # fs)))"
    by (simp add: ToErr_def)
  have many_text:
    "Error (ErrorList (map entry (f # g # fs))) = joined_by '', '' (map rendered (f # g # fs))"
    by (rule Error_ErrorList_entries)
  have cause: "errorList_Cause (map entry (f # g # fs)) = Some (HandlerError (fst f) (snd f))"
    by (simp add: errorList_Cause_def entry_def)
  from none one one_text many many_text cause show ?thesis
    by (intro conjI)
qed

section \<open>The object carrier\<close>

lemmas run_simps =
  Inject_def Extract_def DeepCopyObject_def ObjectCarrier_Get_def ObjectCarrier_Set_def
  ObjectCarrier_Keys_def SetAnnotations_def meta_Accessor_def object_at_def isNil_def
  slice_assign_def traceparent_propagator_def pod_def injected_pod_def new_pod_def one_pod_def
  replacing_def failing_replacing_def ignoring_def wrapping_ignore_def h1_def
  injected_new_pod_def accepting_ignore_def

lemma meta_Accessor_Set:
  "meta_Accessor s obj = Some m \<Longrightarrow>
   meta_Accessor (ObjectCarrier_Set obj key val s) obj =
     Some (m\<lparr>Annotations :=
       Some (AList.update key val (case Annotations m of None \<Rightarrow> [] | Some ann \<Rightarrow> ann))\<rparr>)"
  by (auto simp: meta_Accessor_def ObjectCarrier_Set_def SetAnnotations_def isNil_def object_at_def
      split: runtime_Object.splits object.splits if_splits)

lemma Set_in_place:
  "meta_Accessor s obj = Some m \<Longrightarrow>
   \<exists>a. obj = Ref a \<and> a < length s \<and> ObjectCarrier_Set obj key val s =
     s[a := Meta (m\<lparr>Annotations :=
       Some (AList.update key val (case Annotations m of None \<Rightarrow> [] | Some ann \<Rightarrow> ann))\<rparr>)]"
  by (auto simp: meta_Accessor_def ObjectCarrier_Set_def SetAnnotations_def isNil_def object_at_def
      split: runtime_Object.splits object.splits if_splits)

lemma Get_after_Set:
  "meta_Accessor s obj = Some m \<Longrightarrow>
   ObjectCarrier_Get (ObjectCarrier_Set obj key val s) obj key = val"
  using meta_Accessor_Set [of s obj m key val]
  by (auto simp: ObjectCarrier_Get_def isNil_def update_conv' meta_Accessor_def
      split: runtime_Object.splits)

lemma Set_noop: "meta_Accessor s obj = None \<Longrightarrow> ObjectCarrier_Set obj key val s = s"
  by (simp add: ObjectCarrier_Set_def)

lemma Get_empty: "meta_Accessor s obj = None \<Longrightarrow> ObjectCarrier_Get s obj key = ''''"
  by (simp add: ObjectCarrier_Get_def)

text \<open>
  C7. On an object whose accessor succeeds, \<^verbatim>\<open>Set(key, value)\<close> followed by
  \<^verbatim>\<open>Get(key)\<close> returns the value; \<^verbatim>\<open>Set\<close> overwrites the object at its own address,
  with the key assigned in its annotation map, the empty map taken for a nil one. When
  the accessor fails, as it does on the nil object, \<^verbatim>\<open>Set\<close> leaves the store as it is and
  \<^verbatim>\<open>Get\<close> returns the empty string; so does \<^verbatim>\<open>Get\<close> on an object whose annotation map
  is nil.
\<close>

theorem ObjectCarrier_Set_then_Get:
  "(meta_Accessor s obj = Some m \<longrightarrow>
      ObjectCarrier_Get (ObjectCarrier_Set obj key val s) obj key = val
      \<and> (\<exists>a. obj = Ref a \<and> a < length s
            \<and> ObjectCarrier_Set obj key val s =
                s[a := Meta (m\<lparr>Annotations :=
                  Some (AList.update key val (case Annotations m of None \<Rightarrow> [] | Some ann \<Rightarrow> ann))\<rparr>)]))
   \<and> (meta_Accessor s obj = None \<longrightarrow>
        ObjectCarrier_Set obj key val s = s \<and> ObjectCarrier_Get s obj key = '''')
   \<and> (meta_Accessor s obj = Some m \<and> Annotations m = None \<longrightarrow> ObjectCarrier_Get s obj key = '''')
   \<and> ObjectCarrier_Set NilObject key val s = s
   \<and> ObjectCarrier_Get s NilObject key = ''''"
proof -
  have "ObjectCarrier_Set NilObject key val s = s"
    by (simp add: ObjectCarrier_Set_def isNil_def)
  moreover have "ObjectCarrier_Get s NilObject key = ''''"
    by (simp add: ObjectCarrier_Get_def isNil_def)
  moreover have "meta_Accessor s obj = Some m \<and> Annotations m = None \<longrightarrow> ObjectCarrier_Get s obj key = ''''"
    by (simp add: ObjectCarrier_Get_def)
  ultimately show ?thesis
    using Get_after_Set [of s obj m key val] Set_in_place [of s obj m key val]
      Set_noop [of s obj key val] Get_empty [of s obj key]
    by blast
qed

theorem ObjectCarrier_Set_then_Get_witness:
  "meta_Accessor [pod] (Ref 0) = Some \<lparr>UID = ''uid-1'', Annotations = None\<rparr>
   \<and> ObjectCarrier_Get (ObjectCarrier_Set (Ref 0) ''traceparent'' ''h1'' [pod]) (Ref 0) ''traceparent'' = ''h1''
   \<and> ObjectCarrier_Set (Ref 0) ''traceparent'' ''h1'' [pod] = [injected_pod]
   \<and> ObjectCarrier_Get [pod] (Ref 0) ''traceparent'' = ''''
   \<and> meta_Accessor [NoMeta] (Ref 0) = None
   \<and> ObjectCarrier_Set (Ref 0) ''traceparent'' ''h1'' [NoMeta] = [NoMeta]
   \<and> ObjectCarrier_Get [NoMeta] (Ref 0) ''traceparent'' = ''''"
proof -
  have some: "meta_Accessor [pod] (Ref 0) = Some \<lparr>UID = ''uid-1'', Annotations = None\<rparr>"
    by (simp add: run_simps)
  have none: "meta_Accessor [NoMeta] (Ref 0) = None"
    by (simp add: run_simps)
  from ObjectCarrier_Set_then_Get
    [of "[pod]" "Ref 0" "\<lparr>UID = ''uid-1'', Annotations = None\<rparr>" "''traceparent''" "''h1''"] some
  have a: "ObjectCarrier_Get (ObjectCarrier_Set (Ref 0) ''traceparent'' ''h1'' [pod]) (Ref 0) ''traceparent'' = ''h1''
     \<and> ObjectCarrier_Set (Ref 0) ''traceparent'' ''h1'' [pod] = [injected_pod]
     \<and> ObjectCarrier_Get [pod] (Ref 0) ''traceparent'' = ''''"
    by (simp add: run_simps)
  from ObjectCarrier_Set_then_Get [of "[NoMeta]" "Ref 0" undefined "''traceparent''" "''h1''"] none
  have b: "ObjectCarrier_Set (Ref 0) ''traceparent'' ''h1'' [NoMeta] = [NoMeta]
     \<and> ObjectCarrier_Get [NoMeta] (Ref 0) ''traceparent'' = ''''"
    by simp
  from some none a b show ?thesis
    by (intro conjI) (erule conjE | assumption)+
qed

text \<open>
  \<^verbatim>\<open>Keys\<close> returns the empty sequence on the nil object, on a failing accessor and on a
  nil or empty annotation map; on any other map its first assignment is out of range.
\<close>

lemma Keys_loop_panics: "Keys_loop (kv # rest) 0 [] = Panic IndexOutOfRange"
  by (cases kv) (simp add: slice_assign_def)

lemma Keys_empty:
  "ObjectCarrier_Keys s NilObject = Return []"
  "meta_Accessor s obj = None \<Longrightarrow> ObjectCarrier_Keys s obj = Return []"
  "meta_Accessor s obj = Some m \<Longrightarrow> Annotations m = None \<Longrightarrow> ObjectCarrier_Keys s obj = Return []"
  "meta_Accessor s obj = Some m \<Longrightarrow> Annotations m = Some [] \<Longrightarrow> ObjectCarrier_Keys s obj = Return []"
  by (simp_all add: ObjectCarrier_Keys_def isNil_def)

lemma Keys_nonempty_panics:
  "meta_Accessor s obj = Some m \<Longrightarrow> Annotations m = Some (kv # ann) \<Longrightarrow>
   ObjectCarrier_Keys s obj = Panic IndexOutOfRange"
  by (auto simp: ObjectCarrier_Keys_def isNil_def Keys_loop_panics meta_Accessor_def)

text \<open>
  C5. \<^verbatim>\<open>Keys\<close> is claimed never to panic, also on a non-empty annotation map. On the
  object with the one annotation \<open>traceparent\<close> the code panics: \<open>keys\<close> has length 0 and
  the loop assigns \<open>keys[1]\<close>.
\<close>

theorem ObjectCarrier_Keys_panics_on_annotation:
  "ObjectCarrier_Keys [injected_pod] (Ref 0) = Panic IndexOutOfRange"
  by (simp add: run_simps)

section \<open>Extract and Inject\<close>

lemma carrier_calls_no_Keys:
  "CarrierKeys \<notin> set calls \<Longrightarrow> \<exists>got' s'. carrier_calls calls c got s = (Return got', s')"
  by (induction calls c got s rule: carrier_calls.induct) simp_all

lemma carrier_calls_NilObject:
  "c = NilObject \<Longrightarrow> \<exists>got'. carrier_calls calls c got s = (Return got', s)"
  by (induction calls c got s rule: carrier_calls.induct)
     (simp_all add: ObjectCarrier_Set_def ObjectCarrier_Keys_def isNil_def)

text \<open>\<^verbatim>\<open>Inject\<close> on the nil object returns and leaves the store as it is.\<close>

lemma Inject_NilObject: "\<exists>got. Inject p span_name NilObject s = (Return got, s)"
  by (simp add: Inject_def carrier_calls_NilObject)

text \<open>
  Calls on a carrier over an object at or above address \<open>n\<close> leave the cells below \<open>n\<close>
  as they are.
\<close>

lemma carrier_calls_prefix:
  "n \<le> length s \<Longrightarrow> (\<forall>a. c = Ref a \<longrightarrow> n \<le> a) \<Longrightarrow> carrier_calls calls c got s = (r, s') \<Longrightarrow>
   take n s' = take n s \<and> length s' = length s"
proof (induction calls c got s rule: carrier_calls.induct)
  case (1 c got s)
  then show ?case by simp
next
  case (2 key calls c got s)
  then show ?case by simp
next
  case (3 key val calls c got s)
  have "take n (ObjectCarrier_Set c key val s) = take n s
      \<and> length (ObjectCarrier_Set c key val s) = length s"
    using 3(3)
    by (auto simp: ObjectCarrier_Set_def SetAnnotations_def isNil_def Let_def
        split: option.splits runtime_Object.splits object.splits)
  with 3 show ?case by simp
next
  case (4 calls c got s)
  then show ?case by (auto split: outcome.splits)
qed

text \<open>
  Whatever the propagator calls on its carrier, also \<^verbatim>\<open>Set\<close>, \<^verbatim>\<open>Extract\<close> leaves every
  object of the caller as it was: the carrier is over the copy.
\<close>

lemma Extract_frame:
  "Extract p obj s = (r, s') \<Longrightarrow> take (length s) s' = s"
proof (cases obj)
  case NilObject
  assume "Extract p obj s = (r, s')"
  with NilObject show ?thesis by (simp add: Extract_def DeepCopyObject_def)
next
  case (Ref a)
  assume "Extract p obj s = (r, s')"
  with Ref have "carrier_calls (extract_calls p) (Ref (length s)) [] (s @ [object_at s a]) = (r, s')"
    by (simp add: Extract_def DeepCopyObject_def)
  from carrier_calls_prefix [OF _ _ this, of "length s"] show ?thesis by simp
qed

text \<open>
  C6. \<^verbatim>\<open>Extract\<close> is claimed to be a no-op that does not panic on a nil object. The code
  calls \<^verbatim>\<open>obj.DeepCopyObject()\<close> before it builds the carrier, and on the nil interface
  that call is a nil dereference, for every propagator and store.
\<close>

theorem Extract_NilObject_panics:
  "Extract p NilObject s = (Panic NilDereference, s)"
  by (simp add: Extract_def DeepCopyObject_def)

section \<open>One handler invocation\<close>

lemma handler_calls_append: "handler_calls (xs @ ys) = handler_calls xs @ handler_calls ys"
  by (induction xs rule: handler_calls.induct) simp_all

lemma objects_passed_append: "objects_passed (xs @ ys) = objects_passed xs @ objects_passed ys"
  by (induction xs rule: objects_passed.induct) simp_all

lemma handler_spans_started_append:
  "handler_spans_started (xs @ ys) = handler_spans_started xs @ handler_spans_started ys"
  by (induction xs rule: handler_spans_started.induct) simp_all

lemma metrics_append: "metrics (xs @ ys) = metrics xs @ metrics ys"
  by (induction xs rule: metrics.induct) simp_all

text \<open>
  \<^verbatim>\<open>errors.Is(e, ErrIgnore)\<close> holds exactly when an error reached from \<open>e\<close> by
  \<^verbatim>\<open>Unwrap\<close> is the sentinel or accepts it in its \<^verbatim>\<open>Is\<close> method; the errors of the
  unwrap chain are among those reached.
\<close>

lemma errors_Is_unwrapped:
  "errors_Is e ErrIgnore =
     (\<exists>x \<in> set (unwrapped e). x = ErrIgnore \<or> Is_method_accepts x ErrIgnore)"
  by (induction e) (auto split: option.splits)

lemma unwrap_chain_unwrapped: "set (unwrap_chain e) \<subseteq> set (unwrapped e)"
  by (induction e rule: unwrap_chain.induct) auto

lemma unwrap_chain_errors_Is: "ErrIgnore \<in> set (unwrap_chain e) \<Longrightarrow> errors_Is e ErrIgnore"
  using unwrap_chain_unwrapped [of e] by (auto simp: errors_Is_unwrapped)

text \<open>
  The loop body in full, when the injection returns: the object and the errors it hands
  to the next iteration, and the events it appends.
\<close>

lemma OnChange_body_Return:
  assumes inject: "Inject p (name h) obj (objects w) = (Return got, s1)"
    and call: "handler h key obj s1 = ((new, err), s2)"
  shows "OnChange_body p gvr key h obj errs w =
    (Return (replace_obj s2 obj new,
             (case err of
                None \<Rightarrow> errs
              | Some e \<Rightarrow> if errors_Is e ErrIgnore then errs else errs @ [HandlerError (name h) e])),
     w\<lparr>objects := s2,
       events := events w @
         [SpanStart (handler_span (name h)), HandlerOnChange (id' h) (name h) key obj] @
         (case err of
            None \<Rightarrow> []
          | Some e \<Rightarrow> if errors_Is e ErrIgnore then []
                     else [SpanSetStatus (handler_span (name h)) codes_Error (Error e)]) @
         [SpanEnd (handler_span (name h)),
          IncTotalHandlerExecutions gvr (name h)
            (case err of None \<Rightarrow> False | Some e \<Rightarrow> \<not> errors_Is e ErrIgnore),
          ReportReconcileTime gvr (name h)
            (case err of None \<Rightarrow> False | Some e \<Rightarrow> \<not> errors_Is e ErrIgnore)]\<rparr>)"
  using inject call
  by (simp add: OnChange_body_def emit_def record_error_def Let_def split: option.splits)

lemma OnChange_body_Panic:
  assumes inject: "Inject p (name h) obj (objects w) = (Panic pn, s1)"
  shows "OnChange_body p gvr key h obj errs w =
    (Panic pn, w\<lparr>objects := s1, events := events w @ [SpanStart (handler_span (name h))]\<rparr>)"
  using inject
  by (simp add: OnChange_body_def emit_def Let_def)











text \<open>
  C9. When the error a handler returns has the ignore sentinel anywhere in its unwrap
  chain, the invocation adds no entry to the errors of the pass; its span is not marked
  as failed and its metrics are reported with failed = false.
\<close>

theorem wrapped_ErrIgnore_not_aggregated:
  assumes inject: "Inject p (name h) obj (objects w) = (Return got, s1)"
    and call: "handler h key obj s1 = ((new, Some e), s2)"
    and chain: "ErrIgnore \<in> set (unwrap_chain e)"
  shows "\<exists>obj' w'.
     OnChange_body p gvr key h obj errs w = (Return (obj', errs), w')
     \<and> events w' = events w @
         [SpanStart (handler_span (name h)), HandlerOnChange (id' h) (name h) key obj,
          SpanEnd (handler_span (name h)),
          IncTotalHandlerExecutions gvr (name h) False,
          ReportReconcileTime gvr (name h) False]"
proof -
  from chain have "errors_Is e ErrIgnore"
    by (rule unwrap_chain_errors_Is)
  then show ?thesis
    by (simp add: OnChange_body_Return [OF inject call])
qed

theorem wrapped_ErrIgnore_not_aggregated_witness:
  "Inject traceparent_propagator (name (h1 wrapping_ignore)) (Ref 0) (objects one_pod) = (Return [], [injected_pod])
   \<and> handler (h1 wrapping_ignore) ''key'' (Ref 0) [injected_pod] =
       ((ReturnedNil, Some (ErrWrap ''skipped: ignore handler error'' ErrIgnore)), [injected_pod])
   \<and> ErrIgnore \<in> set (unwrap_chain (ErrWrap ''skipped: ignore handler error'' ErrIgnore))
   \<and> (\<exists>obj' w'.
        OnChange_body traceparent_propagator ''gvr'' ''key'' (h1 wrapping_ignore) (Ref 0) [] one_pod =
          (Return (obj', []), w')
        \<and> events w' =
            [SpanStart (handler_span ''h1''), HandlerOnChange 1 ''h1'' ''key'' (Ref 0),
             SpanEnd (handler_span ''h1''),
             IncTotalHandlerExecutions ''gvr'' ''h1'' False,
             ReportReconcileTime ''gvr'' ''h1'' False])"
proof -
  have inject: "Inject traceparent_propagator (name (h1 wrapping_ignore)) (Ref 0) (objects one_pod) = (Return [], [injected_pod])"
    by (simp add: run_simps)
  have call: "handler (h1 wrapping_ignore) ''key'' (Ref 0) [injected_pod] =
      ((ReturnedNil, Some (ErrWrap ''skipped: ignore handler error'' ErrIgnore)), [injected_pod])"
    by (simp add: h1_def wrapping_ignore_def)
  have chain: "ErrIgnore \<in> set (unwrap_chain (ErrWrap ''skipped: ignore handler error'' ErrIgnore))"
    by simp
  from wrapped_ErrIgnore_not_aggregated [OF inject call chain, of "''gvr''" "[]"] inject call chain
  show ?thesis
    by (simp add: one_pod_def h1_def)
qed

text \<open>
  C4, as the claim states it, fails: an error that wraps the sentinel is a non-nil
  error other than the sentinel, and its invocation is reported with failed = false.
\<close>

theorem wrapped_ErrIgnore_reported_not_failed:
  "ErrWrap ''skipped: ignore handler error'' ErrIgnore \<noteq> ErrIgnore
   \<and> handler (h1 wrapping_ignore) ''key'' (Ref 0) [injected_pod] =
       ((ReturnedNil, Some (ErrWrap ''skipped: ignore handler error'' ErrIgnore)), [injected_pod])
   \<and> metrics (events (snd (OnChange_body traceparent_propagator ''gvr'' ''key''
        (h1 wrapping_ignore) (Ref 0) [] one_pod))) =
       [IncTotalHandlerExecutions ''gvr'' ''h1'' False, ReportReconcileTime ''gvr'' ''h1'' False]"
  by (simp add: OnChange_body_def record_error_def emit_def Let_def run_simps)

text \<open>
  C4, amended. An invocation that returns the ignore sentinel adds no entry to the errors
  of the pass, and exactly one execution count and one duration are reported for it,
  with failed = false; an invocation that returns an error that \<^verbatim>\<open>errors.Is\<close> does not
  match to the sentinel, that is, no error reached from it by \<^verbatim>\<open>Unwrap\<close> is the sentinel
  or accepts the sentinel in its own \<^verbatim>\<open>Is\<close> method, is reported with failed = true.
\<close>

theorem OnChange_body_metrics:
  assumes inject: "Inject p (name h) obj (objects w) = (Return got, s1)"
    and call: "handler h key obj s1 = ((new, err), s2)"
  shows "\<exists>obj' errs' w'.
     OnChange_body p gvr key h obj errs w = (Return (obj', errs'), w')
     \<and> (err = Some ErrIgnore \<longrightarrow>
          errs' = errs
          \<and> metrics (events w') = metrics (events w) @
              [IncTotalHandlerExecutions gvr (name h) False, ReportReconcileTime gvr (name h) False])
     \<and> (\<forall>e. err = Some e
            \<and> (\<forall>x \<in> set (unwrapped e). x \<noteq> ErrIgnore \<and> \<not> Is_method_accepts x ErrIgnore) \<longrightarrow>
          metrics (events w') = metrics (events w) @
              [IncTotalHandlerExecutions gvr (name h) True, ReportReconcileTime gvr (name h) True])"
proof -
  have unmatched: "\<not> errors_Is e ErrIgnore"
    if "\<forall>x \<in> set (unwrapped e). x \<noteq> ErrIgnore \<and> \<not> Is_method_accepts x ErrIgnore" for e
    using that by (simp add: errors_Is_unwrapped)
  show ?thesis
    by (auto simp: OnChange_body_Return [OF inject call] metrics_append dest: unmatched)
qed

theorem OnChange_body_metrics_witness:
  "Inject traceparent_propagator (name (h1 ignoring)) (Ref 0) (objects one_pod) = (Return [], [injected_pod])
   \<and> handler (h1 ignoring) ''key'' (Ref 0) [injected_pod] = ((ReturnedNil, Some ErrIgnore), [injected_pod])
   \<and> (\<exists>obj' w'.
        OnChange_body traceparent_propagator ''gvr'' ''key'' (h1 ignoring) (Ref 0) [] one_pod =
          (Return (obj', []), w')
        \<and> metrics (events w') =
            [IncTotalHandlerExecutions ''gvr'' ''h1'' False, ReportReconcileTime ''gvr'' ''h1'' False])
   \<and> Inject traceparent_propagator (name (h1 failing_replacing)) (Ref 0) (objects one_pod) = (Return [], [injected_pod])
   \<and> handler (h1 failing_replacing) ''key'' (Ref 0) [injected_pod] =
       ((ReturnedObject 1, Some (ErrNew ''boom'')), [injected_pod, new_pod])
   \<and> unwrapped (ErrNew ''boom'') = [ErrNew ''boom'']
   \<and> ErrNew ''boom'' \<noteq> ErrIgnore
   \<and> \<not> Is_method_accepts (ErrNew ''boom'') ErrIgnore
   \<and> (\<exists>obj' errs' w'.
        OnChange_body traceparent_propagator ''gvr'' ''key'' (h1 failing_replacing) (Ref 0) [] one_pod =
          (Return (obj', errs'), w')
        \<and> metrics (events w') =
            [IncTotalHandlerExecutions ''gvr'' ''h1'' True, ReportReconcileTime ''gvr'' ''h1'' True])"
proof -
  have inject1: "Inject traceparent_propagator (name (h1 ignoring)) (Ref 0) (objects one_pod) = (Return [], [injected_pod])"
    by (simp add: run_simps)
  have call1: "handler (h1 ignoring) ''key'' (Ref 0) [injected_pod] = ((ReturnedNil, Some ErrIgnore), [injected_pod])"
    by (simp add: h1_def ignoring_def)
  have inject2: "Inject traceparent_propagator (name (h1 failing_replacing)) (Ref 0) (objects one_pod) = (Return [], [injected_pod])"
    by (simp add: run_simps)
  have call2: "handler (h1 failing_replacing) ''key'' (Ref 0) [injected_pod] =
      ((ReturnedObject 1, Some (ErrNew ''boom'')), [injected_pod, new_pod])"
    by (simp add: h1_def failing_replacing_def)
  have chain: "unwrapped (ErrNew ''boom'') = [ErrNew ''boom'']"
    by simp
  have other: "ErrNew ''boom'' \<noteq> ErrIgnore"
    by simp
  have no_method: "\<not> Is_method_accepts (ErrNew ''boom'') ErrIgnore"
    by simp
  have unmatched: "\<forall>x \<in> set (unwrapped (ErrNew ''boom'')).
      x \<noteq> ErrIgnore \<and> \<not> Is_method_accepts x ErrIgnore"
    by simp
  have ev: "metrics (events one_pod) = []" "name (h1 ignoring) = ''h1''"
    "name (h1 failing_replacing) = ''h1''"
    by (simp_all add: one_pod_def h1_def)
  from OnChange_body_metrics [OF inject1 call1, of "''gvr''" "[]"]
  have a: "\<exists>obj' w'.
        OnChange_body traceparent_propagator ''gvr'' ''key'' (h1 ignoring) (Ref 0) [] one_pod =
          (Return (obj', []), w')
        \<and> metrics (events w') =
            [IncTotalHandlerExecutions ''gvr'' ''h1'' False, ReportReconcileTime ''gvr'' ''h1'' False]"
    by (auto simp: ev)
  from OnChange_body_metrics [OF inject2 call2, of "''gvr''" "[]"] unmatched
  have b: "\<exists>obj' errs' w'.
        OnChange_body traceparent_propagator ''gvr'' ''key'' (h1 failing_replacing) (Ref 0) [] one_pod =
          (Return (obj', errs'), w')
        \<and> metrics (events w') =
            [IncTotalHandlerExecutions ''gvr'' ''h1'' True, ReportReconcileTime ''gvr'' ''h1'' True]"
    by (auto simp: ev)
  from inject1 call1 a inject2 call2 chain other no_method b show ?thesis
    by (intro conjI)
qed

text \<open>
  An error without \<^verbatim>\<open>Unwrap\<close> whose own \<^verbatim>\<open>Is\<close> method accepts the sentinel: the
  sentinel is not among the errors reached from it, and its invocation is reported with
  failed = false.
\<close>

lemma Is_method_error_reported_not_failed:
  "ErrIgnore \<notin> set (unwrapped (ErrCustom ''not found'' [ErrIgnore] None))"
  "handler (h1 accepting_ignore) ''key'' (Ref 0) [injected_pod] =
     ((ReturnedNil, Some (ErrCustom ''not found'' [ErrIgnore] None)), [injected_pod])"
  "metrics (events (snd (OnChange_body traceparent_propagator ''gvr'' ''key''
      (h1 accepting_ignore) (Ref 0) [] one_pod))) =
     [IncTotalHandlerExecutions ''gvr'' ''h1'' False, ReportReconcileTime ''gvr'' ''h1'' False]"
  by (simp_all add: OnChange_body_def record_error_def emit_def Let_def run_simps)

section \<open>The whole dispatch\<close>

text \<open>A pass that returns has called each handler of the snapshot once, in order.\<close>

lemma OnChange_body_calls:
  assumes "OnChange_body p gvr key h obj errs w = (Return r, w')"
  shows "handler_calls (events w') = handler_calls (events w) @ [(id' h, name h)]"
proof -
  obtain o1 s1 where inj: "Inject p (name h) obj (objects w) = (o1, s1)"
    by (cases "Inject p (name h) obj (objects w)")
  show ?thesis
  proof (cases o1)
    case (Panic pn)
    with inj assms show ?thesis by (simp add: OnChange_body_Panic)
  next
    case (Return got)
    obtain new err s2 where call: "handler h key obj s1 = ((new, err), s2)"
      by (metis surj_pair)
    from inj Return have "Inject p (name h) obj (objects w) = (Return got, s1)" by simp
    from OnChange_body_Return [OF this call, of gvr errs] assms
    show ?thesis by (auto simp: handler_calls_append split: option.splits)
  qed
qed

lemma OnChange_loop_calls:
  "OnChange_loop p gvr key hs obj errs w = (Return r, w') \<Longrightarrow>
   handler_calls (events w') = handler_calls (events w) @ map (\<lambda>h. (id' h, name h)) hs"
proof (induction hs arbitrary: obj errs w)
  case Nil
  then show ?case by simp
next
  case (Cons h hs)
  obtain o1 w1 where body: "OnChange_body p gvr key h obj errs w = (o1, w1)"
    by (cases "OnChange_body p gvr key h obj errs w")
  show ?case
  proof (cases o1)
    case (Panic pn)
    with body Cons.prems show ?thesis by simp
  next
    case (Return r1)
    obtain obj' errs' where r1: "r1 = (obj', errs')" by (cases r1)
    from body Return r1 Cons.prems
    have rest: "OnChange_loop p gvr key hs obj' errs' w1 = (Return r, w')"
      by simp
    from body Return have "handler_calls (events w1) = handler_calls (events w) @ [(id' h, name h)]"
      by (simp add: OnChange_body_calls)
    with Cons.IH [OF rest] show ?thesis by simp
  qed
qed

text \<open>The pass returns when the propagator does not call \<^verbatim>\<open>Keys\<close>.\<close>

lemma OnChange_body_returns:
  assumes "CarrierKeys \<notin> set (inject_calls p (name h))"
  shows "\<exists>r w'. OnChange_body p gvr key h obj errs w = (Return r, w')"
proof -
  from carrier_calls_no_Keys [OF assms, of obj "[]" "objects w"]
  obtain got s1 where inject: "Inject p (name h) obj (objects w) = (Return got, s1)"
    by (auto simp: Inject_def)
  obtain new err s2 where call: "handler h key obj s1 = ((new, err), s2)"
    by (metis surj_pair)
  show ?thesis
    by (simp add: OnChange_body_Return [OF inject call])
qed

lemma OnChange_loop_returns:
  assumes "\<forall>n. CarrierKeys \<notin> set (inject_calls p n)"
  shows "\<exists>r w'. OnChange_loop p gvr key hs obj errs w = (Return r, w')"
proof (induction hs arbitrary: obj errs w)
  case Nil
  show ?case by simp
next
  case (Cons h hs)
  from assms have "CarrierKeys \<notin> set (inject_calls p (name h))" by simp
  from OnChange_body_returns [OF this, of gvr key obj errs w]
  obtain obj' errs' w1 where "OnChange_body p gvr key h obj errs w = (Return (obj', errs'), w1)"
    by auto
  with Cons.IH [of obj' errs' w1] show ?case by simp
qed

text \<open>
  On an object, under a propagator that does not call \<^verbatim>\<open>Keys\<close>, \<^verbatim>\<open>OnChange\<close> returns
  and has called each handler of the snapshot once, in registration order, whatever the
  handlers returned.
\<close>

lemma OnChange_on_object:
  assumes reads: "CarrierKeys \<notin> set (extract_calls p)"
    and writes: "\<forall>n. CarrierKeys \<notin> set (inject_calls p n)"
  shows "\<exists>r w'. OnChange p h key (Ref a) w = (Return r, w')
    \<and> handler_calls (events w') = handler_calls (events w) @ map (\<lambda>e. (id' e, name e)) (handlers h)"
proof -
  from carrier_calls_no_Keys
    [OF reads, of "Ref (length (objects w))" "[]" "objects w @ [object_at (objects w) a]"]
  obtain ctx s1 where ex: "Extract p (Ref a) (objects w) = (Return ctx, s1)"
    by (auto simp: Extract_def DeepCopyObject_def)
  define w1 where "w1 = emit (SpanStart OnChange_span) (w\<lparr>objects := s1\<rparr>)"
  from OnChange_loop_returns [OF writes]
  obtain obj' errs w2 where loop:
    "OnChange_loop p (controllerGVR h) key (handlers h) (Ref a) [] w1 = (Return (obj', errs), w2)"
    by (metis surj_pair)
  have calls: "handler_calls (events w2) =
      handler_calls (events w) @ map (\<lambda>e. (id' e, name e)) (handlers h)"
    using OnChange_loop_calls [OF loop] by (simp add: w1_def emit_def handler_calls_append)
  have run: "OnChange p h key (Ref a) w =
      (case ToErr errs of
         Some err \<Rightarrow>
           (Return (Some err),
            emit (SpanEnd OnChange_span) (emit (SpanSetStatus OnChange_span codes_Error (Error err)) w2))
       | None \<Rightarrow>
           (Return None,
            emit (SpanEnd OnChange_span) (emit (SpanSetStatus OnChange_span codes_Ok '''') w2)))"
    using ex loop by (simp add: OnChange_def w1_def)
  show ?thesis
    unfolding run using calls
    by (cases "ToErr errs") (simp_all add: emit_def handler_calls_append)
qed

text \<open>
  On an object and an empty snapshot \<^verbatim>\<open>OnChange\<close> returns nil, and has called no
  handler and started no handler span.
\<close>

lemma OnChange_empty_snapshot_on_object:
  assumes reads: "CarrierKeys \<notin> set (extract_calls p)"
  shows "\<exists>w'. OnChange p (h\<lparr>handlers := []\<rparr>) key (Ref a) w = (Return None, w')
    \<and> handler_calls (events w') = handler_calls (events w)
    \<and> handler_spans_started (events w') = handler_spans_started (events w)"
proof -
  from carrier_calls_no_Keys
    [OF reads, of "Ref (length (objects w))" "[]" "objects w @ [object_at (objects w) a]"]
  obtain ctx s1 where ex: "Extract p (Ref a) (objects w) = (Return ctx, s1)"
    by (auto simp: Extract_def DeepCopyObject_def)
  then show ?thesis
    by (simp add: OnChange_def ToErr_def emit_def handler_calls_append handler_spans_started_append)
qed

text \<open>
  C1. Every handler of the snapshot is claimed to be called once by every call of
  \<^verbatim>\<open>OnChange\<close>. On the nil object, with any handlers registered, the code panics in
  \<^verbatim>\<open>setupTracingCtx\<close>, before the loop, and calls no handler.
\<close>

theorem OnChange_NilObject_calls_no_handler:
  "fst (OnChange p h key NilObject w) = Panic NilDereference
   \<and> handler_calls (events (snd (OnChange p h key NilObject w))) = handler_calls (events w)"
  by (simp add: OnChange_def Extract_def DeepCopyObject_def)

text \<open>
  C8. \<^verbatim>\<open>OnChange\<close> is claimed to return nil whenever the snapshot is empty. On the nil
  object and an empty snapshot the code panics in \<^verbatim>\<open>setupTracingCtx\<close> and returns
  nothing.
\<close>

theorem OnChange_empty_snapshot_NilObject_panics:
  "OnChange p (h\<lparr>handlers := []\<rparr>) key NilObject w = (Panic NilDereference, w)"
  by (simp add: OnChange_def Extract_def DeepCopyObject_def)

section \<open>Runs of the small system\<close>

lemmas dispatch_simps =
  OnChange_def OnChange_body_def record_error_def replace_obj_def emit_def ToErr_def Let_def
  two_handlers_def h2_def failing_def run_simps

text \<open>
  Two failing handlers: both run, the second on the object the first returned (at
  address 2, after the copy \<^verbatim>\<open>Extract\<close> made at address 1), and the error returned is
  the composite of both failures.
\<close>

lemma OnChange_two_failing_handlers:
  "fst (OnChange traceparent_propagator (two_handlers failing_replacing failing) ''key'' (Ref 0) one_pod) =
     Return (Some (ErrorList [HandlerError ''h1'' (ErrNew ''boom''), HandlerError ''h2'' (ErrNew ''boom'')]))"
  "objects_passed (events (snd (OnChange traceparent_propagator
       (two_handlers failing_replacing failing) ''key'' (Ref 0) one_pod))) = [Ref 0, Ref 2]"
  "Error (ErrorList [HandlerError ''h1'' (ErrNew ''boom''), HandlerError ''h2'' (ErrNew ''boom'')]) =
     ''handler h1: boom, handler h2: boom''"
  by (simp_all add: dispatch_simps)

text \<open>A handler that returns the sentinel and one that wraps it: \<^verbatim>\<open>OnChange\<close> returns nil.\<close>

lemma OnChange_two_ignoring_handlers:
  "fst (OnChange traceparent_propagator (two_handlers ignoring wrapping_ignore) ''key'' (Ref 0) one_pod) =
     Return None"
  "handler_calls (events (snd (OnChange traceparent_propagator
       (two_handlers ignoring wrapping_ignore) ''key'' (Ref 0) one_pod))) = [(1, ''h1''), (2, ''h2'')]"
  by (simp_all add: dispatch_simps)

text \<open>The object given to \<^verbatim>\<open>OnChange\<close> carries the annotation the first injection wrote.\<close>

lemma OnChange_injects_into_the_live_object:
  "objects (snd (OnChange traceparent_propagator (two_handlers ignoring ignoring) ''key'' (Ref 0) one_pod)) ! 0 =
     Meta \<lparr>UID = ''uid-1'', Annotations = Some [(''traceparent'', ''h2'')]\<rparr>"
  by (simp add: dispatch_simps)

end
